theory Spec2Isabelle
  imports Complex_Main "HOL-Library.Char_ord" "HOL-Library.List_Lexorder"
begin

section \<open>The tokenizer (lexer.py)\<close>

text \<open>
  Every method of the tokenizer either returns or raises; the stream it reads is mutated
  in place and keeps its mutation when an exception leaves the method. A method is
  therefore a function from the state to a pair: the exception raised (\<open>Inl\<close>) or the
  value returned (\<open>Inr\<close>), and the state it leaves behind.

  Characters are the 8-bit characters of HOL; \<open>isdigit\<close> and \<open>isalpha\<close> are
  the ASCII digits and letters, so the model covers ASCII source text. The position of
  a stream starts at 0 and is only ever moved by \<open>next_char\<close> and
  \<open>prev_char\<close>, so it is a natural number.
\<close>

datatype lex_exception = EndOfTokens | TokenError | AssertionError

record Stream =
  source :: string
  pos :: nat

definition streamFromString :: "string \<Rightarrow> Stream" where
  "streamFromString s = \<lparr>source = s, pos = 0\<rparr>"

definition next_char :: "Stream \<Rightarrow> (lex_exception + char) \<times> Stream" where
  "next_char s =
     (if pos s \<ge> length (source s) then (Inl EndOfTokens, s)
      else (Inr (source s ! pos s), s\<lparr>pos := pos s + 1\<rparr>))"

definition prev_char :: "Stream \<Rightarrow> (lex_exception + unit) \<times> Stream" where
  "prev_char s =
     (if pos s > 0 then (Inr (), s\<lparr>pos := pos s - 1\<rparr>) else (Inl AssertionError, s))"

datatype TokenType =
    Num int
  | Keyword string
  | Identifier string
  | String string
  | Operator string
  | EndOfLine string

definition keywords' :: "string list" where
  "keywords' = [''print'', ''var'', ''true'', ''false'', ''print'', ''if'', ''else'', ''then'',
     ''for'', ''while'', ''return'', ''end'', ''do'', ''List'', ''let'', ''in'']"

definition operators :: "string list" where
  "operators = ['','', ''.'', '';'', ''+'', ''-'', ''*'', ''%'', ''>'', ''<'', ''>='', ''<='',
     ''=='', ''!'', ''!='', ''**'', ''^'', ''('', '')'', ''['', '']'', ''='']"

definition white_space :: string where
  "white_space = [CHR '' '', CHR 0x09, CHR 0x0A]"

definition isdigit :: "char \<Rightarrow> bool" where
  "isdigit c = (c \<in> set ''0123456789'')"

definition isalpha :: "char \<Rightarrow> bool" where
  "isalpha c = (c \<in> set ''abcdefghijklmnopqrstuvwxyzABCDEFGHIJKLMNOPQRSTUVWXYZ'')"

text \<open>\<open>int(c)\<close> for a digit character.\<close>

definition int_of_digit :: "char \<Rightarrow> int" where
  "int_of_digit c = int (of_char c) - 48"

text \<open>The double quote, written by its code.\<close>

definition dquote :: char where
  "dquote = CHR 0x22"

text \<open>The loop of \<open>lexer.number\<close>: \<open>n\<close> is the number read so far.\<close>

function number_loop :: "int \<Rightarrow> Stream \<Rightarrow> (lex_exception + TokenType) \<times> Stream" where
  "number_loop n s =
     (case next_char s of
        (Inl e, s') \<Rightarrow> (if e = EndOfTokens then (Inr (Num n), s') else (Inl e, s'))
      | (Inr c, s') \<Rightarrow>
          if isdigit c then number_loop (n * 10 + int_of_digit c) s'
          else (case prev_char s' of
                  (Inl e, s'') \<Rightarrow> (Inl e, s'')
                | (Inr u, s'') \<Rightarrow> (Inr (Num n), s'')))"
  by pat_completeness auto
termination
  by (relation "measure (\<lambda>(n, s). length (source s) - pos s)")
     (auto simp: next_char_def split: if_splits)

definition number :: "char \<Rightarrow> Stream \<Rightarrow> (lex_exception + TokenType) \<times> Stream" where
  "number c s = number_loop (int_of_digit c) s"

definition classify :: "string \<Rightarrow> TokenType" where
  "classify word = (if word \<in> set keywords' then Keyword word else Identifier word)"

text \<open>The loop of \<open>lexer.identifier\<close>: \<open>word\<close> is the word read so far.\<close>

function identifier_loop :: "string \<Rightarrow> Stream \<Rightarrow> (lex_exception + TokenType) \<times> Stream" where
  "identifier_loop word s =
     (case next_char s of
        (Inl e, s') \<Rightarrow> (if e = EndOfTokens then (Inr (classify word), s') else (Inl e, s'))
      | (Inr c, s') \<Rightarrow>
          if isalpha c then identifier_loop (word @ [c]) s'
          else (case prev_char s' of
                  (Inl e, s'') \<Rightarrow> (Inl e, s'')
                | (Inr u, s'') \<Rightarrow> (Inr (classify word), s'')))"
  by pat_completeness auto
termination
  by (relation "measure (\<lambda>(w, s). length (source s) - pos s)")
     (auto simp: next_char_def split: if_splits)

definition identifier' :: "char \<Rightarrow> Stream \<Rightarrow> (lex_exception + TokenType) \<times> Stream" where
  "identifier' c s = identifier_loop [c] s"

text \<open>The loop of \<open>lexer.string\<close>: \<open>acc\<close> is the text read since the opening quote.\<close>

function string_loop :: "string \<Rightarrow> Stream \<Rightarrow> (lex_exception + TokenType) \<times> Stream" where
  "string_loop acc s =
     (case next_char s of
        (Inl e, s') \<Rightarrow> (if e = EndOfTokens then (Inl EndOfTokens, s') else (Inl e, s'))
      | (Inr c, s') \<Rightarrow>
          if c = dquote then (Inr (String acc), s')
          else string_loop (acc @ [c]) s')"
  by pat_completeness auto
termination
  by (relation "measure (\<lambda>(w, s). length (source s) - pos s)")
     (auto simp: next_char_def split: if_splits)

definition string' :: "Stream \<Rightarrow> (lex_exception + TokenType) \<times> Stream" where
  "string' s = string_loop [] s"

text \<open>
  One row of \<open>lexer.operator\<close>: read the next character; when it is \<open>second\<close> the
  token is the two-character operator, otherwise the character is pushed back.
\<close>

definition lookahead ::
  "Stream \<Rightarrow> char \<Rightarrow> string \<Rightarrow> string \<Rightarrow> (lex_exception + TokenType) \<times> Stream" where
  "lookahead s second double single =
     (case next_char s of
        (Inl e, s') \<Rightarrow> (Inl e, s')
      | (Inr c, s') \<Rightarrow>
          if c = second then (Inr (Operator double), s')
          else (case prev_char s' of
                  (Inl e, s'') \<Rightarrow> (Inl e, s'')
                | (Inr u, s'') \<Rightarrow> (Inr (Operator single), s'')))"

definition operator :: "char \<Rightarrow> Stream \<Rightarrow> (lex_exception + TokenType) \<times> Stream" where
  "operator c s =
     (if c = CHR ''='' then lookahead s (CHR ''='') ''=='' ''=''
      else if c = CHR ''!'' then lookahead s (CHR ''='') ''!='' ''!''
      else if c = CHR ''>'' then lookahead s (CHR ''='') ''>='' ''>''
      else if c = CHR ''<'' then lookahead s (CHR ''='') ''<='' ''<''
      else if c = CHR ''&'' then lookahead s (CHR ''&'') ''and'' ''&''
      else if c = CHR ''|'' then lookahead s (CHR ''|'') ''or'' ''|''
      else if c = CHR ''^'' then lookahead s (CHR ''^'') ''**'' ''^''
      else (Inr (Operator [c]), s))"

text \<open>A token returned by one of the scanning methods, as the result of \<open>next_token\<close>.\<close>

definition returned ::
  "(lex_exception + TokenType) \<times> Stream \<Rightarrow> (lex_exception + TokenType option) \<times> Stream" where
  "returned r = (case r of (Inl e, s) \<Rightarrow> (Inl e, s) | (Inr t, s) \<Rightarrow> (Inr (Some t), s))"

text \<open>
  \<open>lexer.next_token\<close>. The methods it calls touch only the stream, so it is a function
  of the stream. When no case of the \<open>match\<close> applies the method falls off its end and
  returns \<open>None\<close>.
\<close>

function next_token :: "Stream \<Rightarrow> (lex_exception + TokenType option) \<times> Stream" where
  "next_token s =
     (case next_char s of
        (Inl e, s') \<Rightarrow> (Inl e, s')
      | (Inr c, s') \<Rightarrow>
          if [c] \<in> set operators then returned (operator c s')
          else if isdigit c then returned (number c s')
          else if isalpha c then returned (identifier' c s')
          else if c = dquote then returned (string' s')
          else if c \<in> set white_space then next_token s'
          else (Inr None, s'))"
  by pat_completeness auto
termination
  by (relation "measure (\<lambda>s. length (source s) - pos s)")
     (auto simp: next_char_def split: if_splits)


subsection \<open>The scanning methods only move forward\<close>

lemma number_loop_progress:
  "number_loop n s = (r, s') \<Longrightarrow> source s' = source s \<and> pos s \<le> pos s'"
proof (induction n s rule: number_loop.induct)
  case (1 n s)
  show ?case
  proof (cases "pos s \<ge> length (source s)")
    case True
    with "1.prems" show ?thesis by (simp add: next_char_def)
  next
    case False
    show ?thesis
    proof (cases "isdigit (source s ! pos s)")
      case True
      with False "1.prems" "1.IH"
      show ?thesis by (simp add: next_char_def)
    next
      case d: False
      with False "1.prems" show ?thesis
        by (auto simp: next_char_def prev_char_def)
    qed
  qed
qed

lemma identifier_loop_progress:
  "identifier_loop w s = (r, s') \<Longrightarrow> source s' = source s \<and> pos s \<le> pos s'"
proof (induction w s rule: identifier_loop.induct)
  case (1 w s)
  show ?case
  proof (cases "pos s \<ge> length (source s)")
    case True
    with "1.prems" show ?thesis by (simp add: next_char_def)
  next
    case False
    show ?thesis
    proof (cases "isalpha (source s ! pos s)")
      case True
      with False "1.prems" "1.IH"
      show ?thesis by (simp add: next_char_def)
    next
      case d: False
      with False "1.prems" show ?thesis
        by (auto simp: next_char_def prev_char_def)
    qed
  qed
qed

lemma string_loop_progress:
  "string_loop w s = (r, s') \<Longrightarrow> source s' = source s \<and> pos s \<le> pos s'"
proof (induction w s rule: string_loop.induct)
  case (1 w s)
  show ?case
  proof (cases "pos s \<ge> length (source s)")
    case True
    with "1.prems" show ?thesis by (simp add: next_char_def)
  next
    case False
    show ?thesis
    proof (cases "source s ! pos s = dquote")
      case True
      with False "1.prems" show ?thesis
        by (auto simp: next_char_def)
    next
      case d: False
      with False "1.prems" "1.IH"
      show ?thesis by (simp add: next_char_def)
    qed
  qed
qed

lemma lookahead_progress:
  "lookahead s c d e = (r, s') \<Longrightarrow> source s' = source s \<and> pos s \<le> pos s'"
  by (auto simp: lookahead_def next_char_def prev_char_def split: if_splits)

lemma operator_progress:
  "operator c s = (r, s') \<Longrightarrow> source s' = source s \<and> pos s \<le> pos s'"
  unfolding operator_def
  by (auto split: if_splits dest: lookahead_progress)

lemma returned_eq:
  "returned x = (r, s') \<Longrightarrow> snd x = s'"
  by (auto simp: returned_def split: prod.splits sum.splits)

lemma next_token_progress:
  "next_token s = (Inr t, s') \<Longrightarrow>
     source s' = source s \<and> pos s < pos s' \<and> pos s < length (source s)"
proof (induction s arbitrary: t s' rule: next_token.induct)
  case (1 s)
  show ?case
  proof (cases "pos s \<ge> length (source s)")
    case True
    with "1.prems" show ?thesis by (simp add: next_char_def)
  next
    case False
    define c where "c = source s ! pos s"
    define s1 where "s1 = s\<lparr>pos := pos s + 1\<rparr>"
    have nc: "next_char s = (Inr c, s1)"
      using False by (simp add: next_char_def c_def s1_def)
    have s1: "source s1 = source s" "pos s1 = pos s + 1"
      by (simp_all add: s1_def)
    consider (op) "[c] \<in> set operators"
      | (num) "[c] \<notin> set operators" "isdigit c"
      | (alpha) "[c] \<notin> set operators" "\<not> isdigit c" "isalpha c"
      | (str) "[c] \<notin> set operators" "\<not> isdigit c" "\<not> isalpha c" "c = dquote"
      | (ws) "[c] \<notin> set operators" "\<not> isdigit c" "\<not> isalpha c" "c \<noteq> dquote"
          "c \<in> set white_space"
      | (none) "[c] \<notin> set operators" "\<not> isdigit c" "\<not> isalpha c" "c \<noteq> dquote"
          "c \<notin> set white_space"
      by blast
    then show ?thesis
    proof cases
      case op
      with "1.prems" nc have "returned (operator c s1) = (Inr t, s')" by simp
      then have "snd (operator c s1) = s'" by (rule returned_eq)
      then have "operator c s1 = (fst (operator c s1), s')" by (metis prod.collapse)
      from operator_progress [OF this] s1 False show ?thesis by simp
    next
      case num
      with "1.prems" nc have "returned (number c s1) = (Inr t, s')" by simp
      then have "snd (number c s1) = s'" by (rule returned_eq)
      then have "number_loop (int_of_digit c) s1 = (fst (number c s1), s')"
        unfolding number_def by (metis prod.collapse)
      from number_loop_progress [OF this] s1 False show ?thesis by simp
    next
      case alpha
      with "1.prems" nc have "returned (identifier' c s1) = (Inr t, s')" by simp
      then have "snd (identifier' c s1) = s'" by (rule returned_eq)
      then have "identifier_loop [c] s1 = (fst (identifier' c s1), s')"
        unfolding identifier'_def by (metis prod.collapse)
      from identifier_loop_progress [OF this] s1 False show ?thesis by simp
    next
      case str
      with "1.prems" nc have "returned (string' s1) = (Inr t, s')" by simp
      then have "snd (string' s1) = s'" by (rule returned_eq)
      then have "string_loop [] s1 = (fst (string' s1), s')"
        unfolding string'_def by (metis prod.collapse)
      from string_loop_progress [OF this] s1 False show ?thesis by simp
    next
      case ws
      with "1.prems" nc have "next_token s1 = (Inr t, s')" by simp
      from "1.IH" [OF nc [symmetric] refl ws this] s1 False show ?thesis by simp
    next
      case none
      with "1.prems" nc have "s' = s1" by simp
      with s1 False show ?thesis by simp
    qed
  qed
qed

subsection \<open>The one-token lookahead\<close>

record lexer =
  stream :: Stream
  save :: "TokenType option"

definition lexerFromStream :: "Stream \<Rightarrow> lexer" where
  "lexerFromStream s = \<lparr>stream = s, save = None\<rparr>"

text \<open>
  \<open>lexer.peek_token\<close>: the saved token when there is one; otherwise the next token is
  scanned and saved. \<open>EndOfTokens\<close> is caught and \<open>None\<close> returned; a token that
  \<open>next_token\<close> returns as \<open>None\<close> is saved as \<open>None\<close>, which is the empty slot.
\<close>

definition peek_token :: "lexer \<Rightarrow> (lex_exception + TokenType option) \<times> lexer" where
  "peek_token l =
     (if save l \<noteq> None then (Inr (save l), l)
      else (case next_token (stream l) of
              (Inl e, s') \<Rightarrow>
                (if e = EndOfTokens then (Inr None, l\<lparr>stream := s'\<rparr>)
                 else (Inl e, l\<lparr>stream := s'\<rparr>))
            | (Inr t, s') \<Rightarrow> (Inr t, l\<lparr>stream := s', save := t\<rparr>)))"

text \<open>\<open>lexer.advance\<close>.\<close>

definition advance :: "lexer \<Rightarrow> (lex_exception + unit) \<times> lexer" where
  "advance l =
     (if save l \<noteq> None then (Inr (), l\<lparr>save := None\<rparr>)
      else (case peek_token l of
              (Inl e, l') \<Rightarrow> (Inl e, l')
            | (Inr None, l') \<Rightarrow> (Inl EndOfTokens, l')
            | (Inr (Some t), l') \<Rightarrow>
                (case next_token (stream l') of
                   (Inl e, s'') \<Rightarrow> (Inl e, l'\<lparr>stream := s''\<rparr>)
                 | (Inr u, s'') \<Rightarrow> (Inr (), l'\<lparr>stream := s''\<rparr>))))"

text \<open>\<open>lexer.match\<close>: \<open>expected\<close> is a token or \<open>None\<close>.\<close>

definition match' :: "lexer \<Rightarrow> TokenType option \<Rightarrow> (lex_exception + unit) \<times> lexer" where
  "match' l expected =
     (case peek_token l of
        (Inl e, l') \<Rightarrow> (Inl e, l')
      | (Inr t, l') \<Rightarrow> if t = expected then advance l' else (Inl TokenError, l'))"

text \<open>
  Iterating over the tokenizer (\<open>for token in l\<close>): \<open>__next__\<close> returns what
  \<open>next_token\<close> returns and ends the iteration at \<open>EndOfTokens\<close>; any other
  exception leaves the loop. The result is the list of the values the loop saw.
\<close>

function tokens :: "lexer \<Rightarrow> lex_exception + TokenType option list" where
  "tokens l =
     (case next_token (stream l) of
        (Inl e, s') \<Rightarrow> (if e = EndOfTokens then Inr [] else Inl e)
      | (Inr t, s') \<Rightarrow>
          (case tokens (l\<lparr>stream := s'\<rparr>) of
             Inl e \<Rightarrow> Inl e
           | Inr ts \<Rightarrow> Inr (t # ts)))"
  by pat_completeness auto
termination
proof (relation "measure (\<lambda>l. length (source (stream l)) - pos (stream l))")
  show "wf (measure (\<lambda>l. length (source (stream l)) - pos (stream l)))" by simp
next
  fix l :: lexer and x :: "lex_exception + TokenType option" and s' t
  assume "(x, s') = next_token (stream l)" and "x = Inr t"
  then have "next_token (stream l) = (Inr t, s')" by simp
  from next_token_progress [OF this]
  show "(l\<lparr>stream := s'\<rparr>, l) \<in> measure (\<lambda>l. length (source (stream l)) - pos (stream l))"
    by (simp add: diff_less_mono2)
qed

subsection \<open>Properties of the tokenizer\<close>

lemma string_loop_unterminated:
  "dquote \<notin> set (drop (pos s) (source s)) \<Longrightarrow> fst (string_loop acc s) = Inl EndOfTokens"
proof (induction acc s rule: string_loop.induct)
  case (1 acc s)
  show ?case
  proof (cases "pos s \<ge> length (source s)")
    case True
    then show ?thesis by (simp add: next_char_def)
  next
    case False
    then have "drop (pos s) (source s) = source s ! pos s # drop (Suc (pos s)) (source s)"
      by (simp add: Cons_nth_drop_Suc)
    with "1.prems" have ne: "source s ! pos s \<noteq> dquote"
      and rest: "dquote \<notin> set (drop (Suc (pos s)) (source s))" by auto
    from False ne rest "1.IH" show ?thesis by (simp add: next_char_def)
  qed
qed

lemma returned_Inl: "fst x = Inl e \<Longrightarrow> fst (returned x) = Inl e"
  by (cases x) (simp add: returned_def)

lemma dquote_class:
  "[dquote] \<notin> set operators" "\<not> isdigit dquote" "\<not> isalpha dquote"
  by (simp_all add: dquote_def operators_def isdigit_def isalpha_def)

text \<open>
  C5. The claim: where the tokenizer reads \<open>&&\<close> \<open>next_token\<close> returns
  \<open>Operator(and)\<close>, and where it reads \<open>||\<close> it returns \<open>Operator(or)\<close>.
  The code: \<open>&\<close> and \<open>|\<close> are not in the list \<open>operators\<close> that
  \<open>next_token\<close> tests, so \<open>lexer.operator\<close> is never called on them: no case of
  the \<open>match\<close> applies and \<open>next_token\<close> returns \<open>None\<close>, having read one
  character. Called directly, \<open>lexer.operator\<close> does return \<open>Operator(and)\<close>.
\<close>

theorem next_token_ampersand_is_None:
  "next_token (streamFromString ''&&'') = (Inr None, \<lparr>source = ''&&'', pos = 1\<rparr>)
   \<and> next_token (streamFromString ''||'') = (Inr None, \<lparr>source = ''||'', pos = 1\<rparr>)
   \<and> tokens (lexerFromStream (streamFromString ''a && b'')) =
       Inr [Some (Identifier ''a''), None, None, Some (Identifier ''b'')]
   \<and> operator CHR ''&'' \<lparr>source = ''&&'', pos = 1\<rparr> =
       (Inr (Operator ''and''), \<lparr>source = ''&&'', pos = 2\<rparr>)"
  by code_simp

text \<open>
  C6. The claim: with no saved token and at least two tokens left, \<open>advance\<close> consumes
  exactly the token \<open>peek_token\<close> would have returned, and a \<open>peek_token\<close> right
  after it returns the next token of the stream.
  The code: with the slot empty, \<open>advance\<close> calls \<open>peek_token\<close>, which scans the
  first token and saves it, and then \<open>next_token\<close>, which scans the second token and
  drops it; the slot still holds the first token. On \<open>1 2 3\<close> the \<open>peek_token\<close>
  after \<open>advance\<close> returns \<open>Num(1)\<close> again and \<open>Num(2)\<close> is never seen.
\<close>

theorem advance_with_empty_slot_drops_second_token:
  "advance (lexerFromStream (streamFromString ''1 2 3'')) =
     (Inr (), \<lparr>stream = \<lparr>source = ''1 2 3'', pos = 3\<rparr>, save = Some (Num 1)\<rparr>)
   \<and> peek_token \<lparr>stream = \<lparr>source = ''1 2 3'', pos = 3\<rparr>, save = Some (Num 1)\<rparr> =
     (Inr (Some (Num 1)), \<lparr>stream = \<lparr>source = ''1 2 3'', pos = 3\<rparr>, save = Some (Num 1)\<rparr>)
   \<and> tokens (lexerFromStream (streamFromString ''1 2 3'')) =
     Inr [Some (Num 1), Some (Num 2), Some (Num 3)]"
  by code_simp

text \<open>
  C7. Iterating over a fresh tokenizer on \<open>if 22 >= 33 then 5+3 else 8*3 end;\<close> sees
  exactly the fourteen tokens below, in this order, and then ends: the iteration ends
  only when \<open>next_token\<close> raises \<open>EndOfTokens\<close>.
\<close>

theorem tokens_if_then_else:
  "tokens (lexerFromStream (streamFromString ''if 22 >= 33 then 5+3 else 8*3 end;'')) =
     Inr [Some (Keyword ''if''), Some (Num 22), Some (Operator ''>=''), Some (Num 33),
          Some (Keyword ''then''), Some (Num 5), Some (Operator ''+''), Some (Num 3),
          Some (Keyword ''else''), Some (Num 8), Some (Operator ''*''), Some (Num 3),
          Some (Keyword ''end''), Some (Operator '';'')]"
  by code_simp

text \<open>
  C9, as stated: an unterminated string literal fails with an error of its own, distinct
  from the one for the end of the input. It does not: \<open>lexer.string\<close> raises
  \<open>EndOfTokens\<close>, the exception \<open>next_char\<close> raises at the end of the input, and an
  iteration over the tokenizer therefore ends without any error.
\<close>

theorem unterminated_string_counterexample:
  "fst (next_token (streamFromString [CHR 0x22, CHR ''a'', CHR ''b'', CHR ''c''])) = Inl EndOfTokens
   \<and> tokens (lexerFromStream (streamFromString [CHR 0x22, CHR ''a'', CHR ''b'', CHR ''c''])) = Inr []"
  by code_simp

text \<open>
  C9, amended: when \<open>next_token\<close> reads a double quote and no double quote follows it
  in the input, \<open>next_token\<close> raises \<open>EndOfTokens\<close>, which is also what it raises
  on the exhausted stream.
\<close>

theorem unterminated_string_raises_EndOfTokens:
  assumes "pos s < length (source s)"
    and "source s ! pos s = dquote"
    and "dquote \<notin> set (drop (Suc (pos s)) (source s))"
  shows "fst (next_token s) = Inl EndOfTokens
         \<and> fst (next_token (s\<lparr>pos := length (source s)\<rparr>)) = Inl EndOfTokens"
proof
  from assms(1,2) have nc: "next_char s = (Inr dquote, s\<lparr>pos := pos s + 1\<rparr>)"
    by (simp add: next_char_def)
  from assms(3) have "fst (string_loop [] (s\<lparr>pos := pos s + 1\<rparr>)) = Inl EndOfTokens"
    by (intro string_loop_unterminated) simp
  then have "fst (returned (string' (s\<lparr>pos := pos s + 1\<rparr>))) = Inl EndOfTokens"
    unfolding string'_def by (rule returned_Inl)
  with nc show "fst (next_token s) = Inl EndOfTokens"
    by (simp add: dquote_class)
next
  show "fst (next_token (s\<lparr>pos := length (source s)\<rparr>)) = Inl EndOfTokens"
    by (simp add: next_char_def)
qed

theorem unterminated_string_raises_EndOfTokens_witness:
  "4 < length (''x = '' @ [dquote] @ ''hello'')
   \<and> (''x = '' @ [dquote] @ ''hello'') ! 4 = dquote
   \<and> dquote \<notin> set (drop (Suc 4) (''x = '' @ [dquote] @ ''hello''))
   \<and> fst (next_token \<lparr>source = ''x = '' @ [dquote] @ ''hello'', pos = 4\<rparr>) = Inl EndOfTokens"
proof -
  have h1: "pos \<lparr>source = ''x = '' @ [dquote] @ ''hello'', pos = 4\<rparr>
             < length (source \<lparr>source = ''x = '' @ [dquote] @ ''hello'', pos = 4\<rparr>)"
    by simp
  have h2: "source \<lparr>source = ''x = '' @ [dquote] @ ''hello'', pos = 4\<rparr>
             ! pos \<lparr>source = ''x = '' @ [dquote] @ ''hello'', pos = 4\<rparr> = dquote"
    by simp
  have h3: "dquote \<notin> set (drop (Suc (pos \<lparr>source = ''x = '' @ [dquote] @ ''hello'', pos = 4\<rparr>))
             (source \<lparr>source = ''x = '' @ [dquote] @ ''hello'', pos = 4\<rparr>))"
    by (simp add: dquote_def)
  from unterminated_string_raises_EndOfTokens [OF h1 h2 h3] h1 h2 h3
  show ?thesis by simp
qed

section \<open>The evaluator (eval.py)\<close>

subsection \<open>Values and the abstract syntax\<close>

text \<open>\<open>Value = Fraction | bool | str\<close>.\<close>

datatype Value = Fraction rat | Bool bool | Str string

text \<open>
  The exceptions an evaluation can end with: the \<open>Exception(message)\<close> that
  \<open>eval_ast\<close> raises itself, and the built-in exceptions of the Python operators it
  applies.
\<close>

datatype py_exception =
    Exception string
  | TypeError
  | ValueError
  | ZeroDivisionError
  | OverflowError

definition VariableNotDefined :: py_exception where
  "VariableNotDefined = Exception ''Variable not defined''"

definition DivisionByZero :: py_exception where
  "DivisionByZero = Exception ''Division by zero''"

definition ProgramNotSupported :: py_exception where
  "ProgramNotSupported =
     Exception ''Program not supported, it may be in the future versions of the language''"

text \<open>
  The nodes. \<open>let\<close>, \<open>get\<close> and \<open>set\<close> hold a \<open>let_var\<close> or \<open>mut_var\<close> object
  of which only the name is read, so they hold the name. The field \<open>operands\<close> of a
  \<open>string_operation\<close> is a list of nodes for \<open>concat\<close> and a single node for
  \<open>slice\<close>, as the repository's tests build them.
\<close>

datatype ast =
    numeric_literal rat
  | bool_literal bool
  | string_literal string
  | binary_operation string ast ast
  | string_operation string operands int int int
  | let_var string
  | let' string ast ast
  | mut_var string
  | get string
  | set' string ast
  | if_statement ast ast ast
  | while_loop ast ast
  | block "ast list"
and operands =
    operand_list "ast list"
  | operand_node ast

type_synonym scope = "string \<rightharpoonup> Value"
type_synonym namespace = "string \<rightharpoonup> Value"

subsection \<open>The Python operators on values\<close>

text \<open>
  Two library behaviours are taken as parameters, since arithmetic on strings and
  non-integral powers reach them: \<open>Fraction(s)\<close> for a string \<open>s\<close> (the parse of
  \<open>fractions.Fraction\<close>, \<open>ValueError\<close> when it fails), and
  \<open>Fraction(float(a) ** float(b))\<close> for a non-integral exponent \<open>b\<close>. Every
  theorem below holds whatever they return.
\<close>

record pylib =
  Fraction_str :: "string \<Rightarrow> py_exception + rat"
  float_pow :: "rat \<Rightarrow> rat \<Rightarrow> py_exception + rat"

definition as_Fraction :: "py_exception + rat \<Rightarrow> py_exception + Value" where
  "as_Fraction r = (case r of Inl e \<Rightarrow> Inl e | Inr q \<Rightarrow> Inr (Fraction q))"

text \<open>The number a \<open>Fraction\<close> or a \<open>bool\<close> is in arithmetic (\<open>True\<close> is 1).\<close>

fun num :: "Value \<Rightarrow> rat" where
  "num (Fraction q) = q"
| "num (Bool b) = (if b then 1 else 0)"
| "num (Str s) = 0"

text \<open>Truth value testing: \<open>bool(v)\<close>.\<close>

fun truthy :: "Value \<Rightarrow> bool" where
  "truthy (Fraction q) = (q \<noteq> 0)"
| "truthy (Bool b) = b"
| "truthy (Str s) = (s \<noteq> [])"

text \<open>\<open>Fraction(a + b)\<close>.\<close>

fun py_add :: "pylib \<Rightarrow> Value \<Rightarrow> Value \<Rightarrow> py_exception + Value" where
  "py_add L (Str s) (Str t) = as_Fraction (Fraction_str L (s @ t))"
| "py_add L (Str s) b = Inl TypeError"
| "py_add L a (Str t) = Inl TypeError"
| "py_add L a b = Inr (Fraction (num a + num b))"

text \<open>\<open>Fraction(a - b)\<close>.\<close>

fun py_sub :: "Value \<Rightarrow> Value \<Rightarrow> py_exception + Value" where
  "py_sub (Str s) b = Inl TypeError"
| "py_sub a (Str t) = Inl TypeError"
| "py_sub a b = Inr (Fraction (num a - num b))"

text \<open>\<open>Fraction(a * b)\<close>: a string times a \<open>bool\<close> is the string repeated.\<close>

fun py_mul :: "pylib \<Rightarrow> Value \<Rightarrow> Value \<Rightarrow> py_exception + Value" where
  "py_mul L (Str s) (Bool b) = as_Fraction (Fraction_str L (if b then s else []))"
| "py_mul L (Bool b) (Str s) = as_Fraction (Fraction_str L (if b then s else []))"
| "py_mul L (Str s) b = Inl TypeError"
| "py_mul L a (Str t) = Inl TypeError"
| "py_mul L a b = Inr (Fraction (num a * num b))"

text \<open>\<open>Fraction(a / b)\<close>.\<close>

fun py_truediv :: "Value \<Rightarrow> Value \<Rightarrow> py_exception + Value" where
  "py_truediv (Str s) b = Inl TypeError"
| "py_truediv a (Str t) = Inl TypeError"
| "py_truediv a b =
     (if num b = 0 then Inl ZeroDivisionError else Inr (Fraction (num a / num b)))"

text \<open>
  \<open>Fraction(a ** b)\<close>: exact for an integral exponent (a negative one inverts the
  base, and raises on the base 0); a float power otherwise.
\<close>

definition pow_rat :: "pylib \<Rightarrow> rat \<Rightarrow> rat \<Rightarrow> py_exception + Value" where
  "pow_rat L x e =
     (if of_int \<lfloor>e\<rfloor> = e then
        (if e \<ge> 0 then Inr (Fraction (x ^ nat \<lfloor>e\<rfloor>))
         else if x = 0 then Inl ZeroDivisionError
         else Inr (Fraction ((1 / x) ^ nat (- \<lfloor>e\<rfloor>))))
      else as_Fraction (float_pow L x e))"

fun py_pow :: "pylib \<Rightarrow> Value \<Rightarrow> Value \<Rightarrow> py_exception + Value" where
  "py_pow L (Str s) b = Inl TypeError"
| "py_pow L a (Str t) = Inl TypeError"
| "py_pow L a b = pow_rat L (num a) (num b)"

text \<open>\<open>a == b\<close>: never raises; a string equals only a string.\<close>

fun py_eq :: "Value \<Rightarrow> Value \<Rightarrow> bool" where
  "py_eq (Str s) (Str t) = (s = t)"
| "py_eq (Str s) b = False"
| "py_eq a (Str t) = False"
| "py_eq a b = (num a = num b)"

text \<open>\<open>a < b\<close>: numbers by value, strings lexicographically by character code.\<close>

fun py_lt :: "Value \<Rightarrow> Value \<Rightarrow> py_exception + bool" where
  "py_lt (Str s) (Str t) = Inr (s < t)"
| "py_lt (Str s) b = Inl TypeError"
| "py_lt a (Str t) = Inl TypeError"
| "py_lt a b = Inr (num a < num b)"

definition as_Bool :: "py_exception + bool \<Rightarrow> py_exception + Value" where
  "as_Bool r = (case r of Inl e \<Rightarrow> Inl e | Inr b \<Rightarrow> Inr (Bool b))"

text \<open>
  \<open>s[start:stop:hop]\<close> on a string: the indices are adjusted as Python's slices
  adjust them (a negative index counts from the end, an index out of range is clamped).
\<close>

definition adjust_index :: "int \<Rightarrow> int \<Rightarrow> int \<Rightarrow> int" where
  "adjust_index len step i =
     (if i < 0 then (if i + len < 0 then (if step < 0 then - 1 else 0) else i + len)
      else if i \<ge> len then (if step < 0 then len - 1 else len)
      else i)"

definition slice_indices :: "int \<Rightarrow> int \<Rightarrow> int \<Rightarrow> int \<Rightarrow> int list" where
  "slice_indices len start stop step =
     (let a = adjust_index len step start;
          b = adjust_index len step stop;
          count = (if step < 0 then (if b < a then (a - b - 1) div (- step) + 1 else 0)
                   else (if a < b then (b - a - 1) div step + 1 else 0))
      in map (\<lambda>i. a + int i * step) [0 ..< nat count])"

definition py_slice :: "Value \<Rightarrow> int \<Rightarrow> int \<Rightarrow> int \<Rightarrow> py_exception + Value" where
  "py_slice v start stop hop =
     (case v of
        Str s \<Rightarrow>
          if hop = 0 then Inl ValueError
          else Inr (Str (map (\<lambda>i. s ! nat i) (slice_indices (int (length s)) start stop hop)))
      | Fraction q \<Rightarrow> Inl TypeError
      | Bool b \<Rightarrow> Inl TypeError)"

text \<open>\<open>final_string += v\<close> in \<open>concat\<close>, where \<open>final_string\<close> is a string.\<close>

definition str_iadd :: "string \<Rightarrow> Value \<Rightarrow> py_exception + string" where
  "str_iadd acc v =
     (case v of Str s \<Rightarrow> Inr (acc @ s) | Fraction q \<Rightarrow> Inl TypeError | Bool b \<Rightarrow> Inl TypeError)"

subsection \<open>Evaluation\<close>

text \<open>
  An evaluation either raises or returns, and in both cases leaves the namespace it was
  given as it has mutated it so far: its outcome is the exception (\<open>Inl\<close>) or the
  value (\<open>Inr\<close>), paired with that namespace. A \<open>while_loop\<close> can run forever, so
  \<open>eval_ast\<close> takes a bound on the depth of recursive calls and loop iterations, and
  is \<open>None\<close> when the bound is reached.
\<close>

type_synonym 'a outcome = "(py_exception + 'a) \<times> namespace"

text \<open>Evaluate, and go on with the value and the namespace unless it raised.\<close>

definition and_then ::
  "'a outcome option \<Rightarrow> ('a \<Rightarrow> namespace \<Rightarrow> 'b outcome option) \<Rightarrow> 'b outcome option" where
  "and_then m k =
     (case m of
        None \<Rightarrow> None
      | Some (Inl e, ns) \<Rightarrow> Some (Inl e, ns)
      | Some (Inr v, ns) \<Rightarrow> k v ns)"

text \<open>Both operands, left then right, then the operator.\<close>

definition both ::
  "(ast \<Rightarrow> namespace \<Rightarrow> Value outcome option) \<Rightarrow> ast \<Rightarrow> ast \<Rightarrow> namespace \<Rightarrow>
     (Value \<Rightarrow> Value \<Rightarrow> py_exception + Value) \<Rightarrow> Value outcome option" where
  "both ev left right ns f =
     and_then (ev left ns) (\<lambda>a ns1. and_then (ev right ns1) (\<lambda>b ns2. Some (f a b, ns2)))"

text \<open>The first loop of a \<open>block\<close>: each expression in order, on the local namespace.\<close>

fun for_exps ::
  "(ast \<Rightarrow> namespace \<Rightarrow> Value outcome option) \<Rightarrow> ast list \<Rightarrow> namespace \<Rightarrow> unit outcome option" where
  "for_exps ev [] local_namespace = Some (Inr (), local_namespace)"
| "for_exps ev (exp' # exps) local_namespace =
     and_then (ev exp' local_namespace) (\<lambda>v local_namespace'. for_exps ev exps local_namespace')"

text \<open>
  The second loop of a \<open>block\<close>: every key of the local namespace that is a key of
  \<open>name_space\<close> gets the local value.
\<close>

definition merge_back :: "namespace \<Rightarrow> namespace \<Rightarrow> namespace" where
  "merge_back name_space local_namespace =
     (\<lambda>i. case name_space i of
            None \<Rightarrow> None
          | Some old \<Rightarrow> (case local_namespace i of None \<Rightarrow> Some old | Some v \<Rightarrow> Some v))"

text \<open>The loop of \<open>concat\<close>: \<open>final_string\<close> is the string built so far.\<close>

fun concat_loop ::
  "(ast \<Rightarrow> namespace \<Rightarrow> Value outcome option) \<Rightarrow> ast list \<Rightarrow> string \<Rightarrow> namespace \<Rightarrow>
     Value outcome option" where
  "concat_loop ev [] final_string ns = Some (Inr (Str final_string), ns)"
| "concat_loop ev (i # string_list) final_string ns =
     and_then (ev i ns)
       (\<lambda>v ns1. case str_iadd final_string v of
                   Inl e \<Rightarrow> Some (Inl e, ns1)
                 | Inr s \<Rightarrow> concat_loop ev string_list s ns1)"

text \<open>\<open>k in name_space\<close>.\<close>

definition has_key :: "string \<Rightarrow> namespace \<Rightarrow> bool" where
  "has_key k ns = (ns k \<noteq> None)"

definition lookup :: "(string \<rightharpoonup> Value) \<Rightarrow> string \<Rightarrow> namespace \<Rightarrow> Value outcome option" where
  "lookup m name ns =
     (case m name of Some v \<Rightarrow> Some (Inr v, ns) | None \<Rightarrow> Some (Inl VariableNotDefined, ns))"

text \<open>
  \<open>eval_ast\<close>, with the library \<open>L\<close> and the bound first. The defaults
  \<open>lexical_scope=None\<close> and \<open>name_space=None\<close> are the empty maps. In \<open>concat\<close>
  the first assignment evaluates \<open>string_literal("")\<close>, which is the empty string.
\<close>

fun eval_ast :: "pylib \<Rightarrow> nat \<Rightarrow> ast \<Rightarrow> scope \<Rightarrow> namespace \<Rightarrow> Value outcome option" where
  "eval_ast L 0 subprogram lexical_scope name_space = None"
| "eval_ast L (Suc n) subprogram lexical_scope name_space =
     (case subprogram of
        let_var name \<Rightarrow> lookup lexical_scope name name_space
      | let' name e1 e2 \<Rightarrow>
          and_then (eval_ast L n e1 lexical_scope name_space)
            (\<lambda>temp ns1. eval_ast L n e2 (lexical_scope(name \<mapsto> temp)) ns1)
      | mut_var name \<Rightarrow> lookup name_space name name_space
      | get name \<Rightarrow> lookup name_space name name_space
      | set' name v \<Rightarrow>
          and_then (eval_ast L n v lexical_scope name_space)
            (\<lambda>temp ns1. Some (Inr (Fraction 0), ns1(name \<mapsto> temp)))
      | numeric_literal v \<Rightarrow> Some (Inr (Fraction v), name_space)
      | bool_literal v \<Rightarrow> Some (Inr (Bool v), name_space)
      | string_literal v \<Rightarrow> Some (Inr (Str v), name_space)
      | binary_operation op left right \<Rightarrow>
          (let ev = (\<lambda>e ns. eval_ast L n e lexical_scope ns) in
           if op = ''+'' then both ev left right name_space (py_add L)
           else if op = ''-'' then both ev left right name_space py_sub
           else if op = ''*'' then both ev left right name_space (py_mul L)
           else if op = ''/'' then
             (case eval_ast L n right Map.empty Map.empty of
                None \<Rightarrow> None
              | Some (Inl e, scratch) \<Rightarrow> Some (Inl e, name_space)
              | Some (Inr d, scratch) \<Rightarrow>
                  if py_eq d (Fraction 0) then Some (Inl DivisionByZero, name_space)
                  else both ev left right name_space py_truediv)
           else if op = ''**'' then both ev left right name_space (py_pow L)
           else if op = ''=='' then
             both ev left right name_space (\<lambda>a b. Inr (Bool (py_eq a b)))
           else if op = ''!='' then
             both ev left right name_space (\<lambda>a b. Inr (Bool (\<not> py_eq a b)))
           else if op = ''<'' then
             both ev left right name_space (\<lambda>a b. as_Bool (py_lt a b))
           else if op = ''>'' then
             both ev left right name_space (\<lambda>a b. as_Bool (py_lt b a))
           else if op = ''&&'' then
             and_then (ev left name_space)
               (\<lambda>a ns1. if truthy a
                         then and_then (ev right ns1) (\<lambda>b ns2. Some (Inr (Bool (truthy b)), ns2))
                         else Some (Inr (Bool False), ns1))
           else if op = ''||'' then
             and_then (ev left name_space)
               (\<lambda>a ns1. if truthy a then Some (Inr (Bool True), ns1)
                         else and_then (ev right ns1) (\<lambda>b ns2. Some (Inr (Bool (truthy b)), ns2)))
           else Some (Inl ProgramNotSupported, name_space))
      | if_statement condition if_exp else_exp \<Rightarrow>
          and_then (eval_ast L n condition lexical_scope name_space)
            (\<lambda>c ns1. if truthy c then eval_ast L n if_exp lexical_scope ns1
                      else eval_ast L n else_exp lexical_scope ns1)
      | while_loop condition body \<Rightarrow>
          and_then (eval_ast L n condition lexical_scope name_space)
            (\<lambda>c ns1. if truthy c
                      then and_then (eval_ast L n body lexical_scope ns1)
                             (\<lambda>v ns2. eval_ast L n (while_loop condition body) lexical_scope ns2)
                      else Some (Inr (Fraction 0), ns1))
      | block exps \<Rightarrow>
          (case for_exps (\<lambda>e ns. eval_ast L n e lexical_scope ns) exps name_space of
             None \<Rightarrow> None
           | Some (Inl e, local_namespace) \<Rightarrow> Some (Inl e, name_space)
           | Some (Inr u, local_namespace) \<Rightarrow>
               Some (Inr (Fraction 0), merge_back name_space local_namespace))
      | string_operation op operands start stop hop \<Rightarrow>
          if op = ''concat'' then
            (case operands of
               operand_list string_list \<Rightarrow>
                 concat_loop (\<lambda>e ns. eval_ast L n e lexical_scope ns) string_list [] name_space
             | operand_node x \<Rightarrow> Some (Inl TypeError, name_space))
          else if op = ''slice'' then
            (case operands of
               operand_node string \<Rightarrow>
                 and_then (eval_ast L n string lexical_scope name_space)
                   (\<lambda>final_string ns1. Some (py_slice final_string start stop hop, ns1))
             | operand_list xs \<Rightarrow> Some (Inl ProgramNotSupported, name_space))
          else Some (Inl ProgramNotSupported, name_space))"

subsection \<open>A larger bound does not change an outcome\<close>

text \<open>
  An evaluation that ends within a bound ends with the same outcome within every larger
  bound: the bound only cuts evaluations off.
\<close>

lemma and_then_mono:
  assumes "and_then m k = Some r"
    and "\<And>x. m = Some x \<Longrightarrow> m' = Some x"
    and "\<And>v ns. k v ns = Some r \<Longrightarrow> k' v ns = Some r"
  shows "and_then m' k' = Some r"
  using assms
  by (cases m) (auto simp: and_then_def split: sum.splits prod.splits)

lemma both_mono:
  assumes "both ev l r ns f = Some x"
    and "\<And>e ns y. ev e ns = Some y \<Longrightarrow> ev' e ns = Some y"
  shows "both ev' l r ns f = Some x"
  using assms(1) unfolding both_def
  by (rule and_then_mono) (auto intro: assms(2) elim: and_then_mono)

lemma for_exps_mono:
  assumes "\<And>e ns y. ev e ns = Some y \<Longrightarrow> ev' e ns = Some y"
  shows "for_exps ev es ns = Some x \<Longrightarrow> for_exps ev' es ns = Some x"
proof (induction es arbitrary: ns)
  case Nil
  then show ?case by simp
next
  case (Cons e es)
  from Cons.prems show ?case
    by (simp del: fun_upd_apply) (erule and_then_mono, auto intro: assms Cons.IH)
qed

lemma concat_loop_mono:
  assumes "\<And>e ns y. ev e ns = Some y \<Longrightarrow> ev' e ns = Some y"
  shows "concat_loop ev es acc ns = Some x \<Longrightarrow> concat_loop ev' es acc ns = Some x"
proof (induction es arbitrary: ns acc)
  case Nil
  then show ?case by simp
next
  case (Cons e es)
  from Cons.prems show ?case
    by simp (erule and_then_mono, auto intro: assms Cons.IH split: sum.splits)
qed


lemma eval_ast_Suc:
  "eval_ast L n e ls ns = Some x \<Longrightarrow> eval_ast L (Suc n) e ls ns = Some x"
proof (induction n arbitrary: e ls ns x)
  case 0
  then show ?case by simp
next
  case (Suc n)
  have IH: "\<And>e ls ns y. eval_ast L n e ls ns = Some y \<Longrightarrow> eval_ast L (Suc n) e ls ns = Some y"
    by (rule Suc.IH)
  note eval_ast.simps [simp del]
  note up = eval_ast.simps(2) [of L "Suc n"] and dn = eval_ast.simps(2) [of L n]
  note p = Suc.prems
  show ?case
  proof (cases e)
    case (numeric_literal v)
    with p show ?thesis by (simp add: up dn)
  next
    case (bool_literal v)
    with p show ?thesis by (simp add: up dn)
  next
    case (string_literal v)
    with p show ?thesis by (simp add: up dn)
  next
    case (let_var v)
    with p show ?thesis by (simp add: up dn)
  next
    case (mut_var v)
    with p show ?thesis by (simp add: up dn)
  next
    case (get v)
    with p show ?thesis by (simp add: up dn)
  next
    case (let' v e1 e2)
    with p have "and_then (eval_ast L n e1 ls ns)
        (\<lambda>temp ns1. eval_ast L n e2 (ls(v \<mapsto> temp)) ns1) = Some x" by (simp add: dn)
    then have "and_then (eval_ast L (Suc n) e1 ls ns)
        (\<lambda>temp ns1. eval_ast L (Suc n) e2 (ls(v \<mapsto> temp)) ns1) = Some x"
      by (rule and_then_mono) (auto intro: IH)
    with let' show ?thesis by (simp add: up)
  next
    case (set' v e1)
    with p have "and_then (eval_ast L n e1 ls ns)
        (\<lambda>temp ns1. Some (Inr (Fraction 0), ns1(v \<mapsto> temp))) = Some x" by (simp add: dn)
    then have "and_then (eval_ast L (Suc n) e1 ls ns)
        (\<lambda>temp ns1. Some (Inr (Fraction 0), ns1(v \<mapsto> temp))) = Some x"
      by (rule and_then_mono) (auto intro: IH)
    with set' show ?thesis by (simp add: up)
  next
    case (if_statement c a b)
    with p have "and_then (eval_ast L n c ls ns)
        (\<lambda>c ns1. if truthy c then eval_ast L n a ls ns1 else eval_ast L n b ls ns1)
        = Some x" by (simp add: dn)
    then have "and_then (eval_ast L (Suc n) c ls ns)
        (\<lambda>c ns1. if truthy c then eval_ast L (Suc n) a ls ns1 else eval_ast L (Suc n) b ls ns1)
        = Some x"
      by (rule and_then_mono) (auto intro: IH split: if_splits)
    with if_statement show ?thesis by (simp add: up)
  next
    case (while_loop c b)
    with p have "and_then (eval_ast L n c ls ns)
        (\<lambda>v ns1. if truthy v
                  then and_then (eval_ast L n b ls ns1)
                         (\<lambda>v ns2. eval_ast L n (while_loop c b) ls ns2)
                  else Some (Inr (Fraction 0), ns1)) = Some x" by (simp add: dn)
    then have "and_then (eval_ast L (Suc n) c ls ns)
        (\<lambda>v ns1. if truthy v
                  then and_then (eval_ast L (Suc n) b ls ns1)
                         (\<lambda>v ns2. eval_ast L (Suc n) (while_loop c b) ls ns2)
                  else Some (Inr (Fraction 0), ns1)) = Some x"
      by (rule and_then_mono) (auto intro: IH elim: and_then_mono split: if_splits)
    with while_loop show ?thesis by (simp add: up)
  next
    case (block exps)
    from p block obtain a where
      f: "for_exps (\<lambda>e ns. eval_ast L n e ls ns) exps ns = Some a"
      and r: "(case a of
                 (Inl e, local_namespace) \<Rightarrow> Some (Inl e, ns)
               | (Inr u, local_namespace) \<Rightarrow>
                   Some (Inr (Fraction 0), merge_back ns local_namespace)) = Some x"
      by (cases "for_exps (\<lambda>e ns. eval_ast L n e ls ns) exps ns") (auto simp: dn)
    from f have "for_exps (\<lambda>e ns. eval_ast L (Suc n) e ls ns) exps ns = Some a"
      by (rule for_exps_mono [rotated]) (rule IH)
    with r block show ?thesis by (simp add: up)
  next
    case (string_operation op operands start stop hop)
    have cl: "\<And>xs. concat_loop (\<lambda>e ns. eval_ast L n e ls ns) xs [] ns = Some x
        \<Longrightarrow> concat_loop (\<lambda>e ns. eval_ast L (Suc n) e ls ns) xs [] ns = Some x"
      by (erule concat_loop_mono [rotated]) (rule IH)
    have sl: "\<And>s. and_then (eval_ast L n s ls ns)
        (\<lambda>final_string ns1. Some (py_slice final_string start stop hop, ns1)) = Some x
        \<Longrightarrow> and_then (eval_ast L (Suc n) s ls ns)
        (\<lambda>final_string ns1. Some (py_slice final_string start stop hop, ns1)) = Some x"
      by (erule and_then_mono) (auto intro: IH)
    from p string_operation have "(if op = ''concat'' then
            (case operands of
               operand_list string_list \<Rightarrow>
                 concat_loop (\<lambda>e ns. eval_ast L n e ls ns) string_list [] ns
             | operand_node x \<Rightarrow> Some (Inl TypeError, ns))
          else if op = ''slice'' then
            (case operands of
               operand_node string \<Rightarrow>
                 and_then (eval_ast L n string ls ns)
                   (\<lambda>final_string ns1. Some (py_slice final_string start stop hop, ns1))
             | operand_list xs \<Rightarrow> Some (Inl ProgramNotSupported, ns))
          else Some (Inl ProgramNotSupported, ns)) = Some x"
      by (simp add: dn)
    with string_operation show ?thesis
      by (auto simp add: up split: if_splits operands.splits dest: cl sl)
  next
    case (binary_operation op l r)
    have b: "\<And>f. both (\<lambda>e ns. eval_ast L n e ls ns) l r ns f = Some x
        \<Longrightarrow> both (\<lambda>e ns. eval_ast L (Suc n) e ls ns) l r ns f = Some x"
      by (erule both_mono) (rule IH)
    have conj: "and_then (eval_ast L n l ls ns)
               (\<lambda>a ns1. if truthy a
                   then and_then (eval_ast L n r ls ns1) (\<lambda>b ns2. Some (Inr (Bool (truthy b)), ns2))
                   else Some (Inr (Bool False), ns1)) = Some x
        \<Longrightarrow> and_then (eval_ast L (Suc n) l ls ns)
               (\<lambda>a ns1. if truthy a
                   then and_then (eval_ast L (Suc n) r ls ns1)
                          (\<lambda>b ns2. Some (Inr (Bool (truthy b)), ns2))
                   else Some (Inr (Bool False), ns1)) = Some x"
      by (erule and_then_mono) (auto intro: IH elim: and_then_mono split: if_splits)
    have disj: "and_then (eval_ast L n l ls ns)
               (\<lambda>a ns1. if truthy a then Some (Inr (Bool True), ns1)
                   else and_then (eval_ast L n r ls ns1) (\<lambda>b ns2. Some (Inr (Bool (truthy b)), ns2)))
                = Some x
        \<Longrightarrow> and_then (eval_ast L (Suc n) l ls ns)
               (\<lambda>a ns1. if truthy a then Some (Inr (Bool True), ns1)
                   else and_then (eval_ast L (Suc n) r ls ns1)
                          (\<lambda>b ns2. Some (Inr (Bool (truthy b)), ns2)))
                = Some x"
      by (erule and_then_mono) (auto intro: IH elim: and_then_mono split: if_splits)
    have dv: "\<And>y. eval_ast L n r Map.empty Map.empty = Some y
        \<Longrightarrow> eval_ast L (Suc n) r Map.empty Map.empty = Some y"
      by (rule IH)
    from p binary_operation have "(let ev = (\<lambda>e ns. eval_ast L n e ls ns) in
           if op = ''+'' then both ev l r ns (py_add L)
           else if op = ''-'' then both ev l r ns py_sub
           else if op = ''*'' then both ev l r ns (py_mul L)
           else if op = ''/'' then
             (case eval_ast L n r Map.empty Map.empty of
                None \<Rightarrow> None
              | Some (Inl e, scratch) \<Rightarrow> Some (Inl e, ns)
              | Some (Inr d, scratch) \<Rightarrow>
                  if py_eq d (Fraction 0) then Some (Inl DivisionByZero, ns)
                  else both ev l r ns py_truediv)
           else if op = ''**'' then both ev l r ns (py_pow L)
           else if op = ''=='' then
             both ev l r ns (\<lambda>a b. Inr (Bool (py_eq a b)))
           else if op = ''!='' then
             both ev l r ns (\<lambda>a b. Inr (Bool (\<not> py_eq a b)))
           else if op = ''<'' then
             both ev l r ns (\<lambda>a b. as_Bool (py_lt a b))
           else if op = ''>'' then
             both ev l r ns (\<lambda>a b. as_Bool (py_lt b a))
           else if op = ''&&'' then
             and_then (ev l ns)
               (\<lambda>a ns1. if truthy a
                         then and_then (ev r ns1) (\<lambda>b ns2. Some (Inr (Bool (truthy b)), ns2))
                         else Some (Inr (Bool False), ns1))
           else if op = ''||'' then
             and_then (ev l ns)
               (\<lambda>a ns1. if truthy a then Some (Inr (Bool True), ns1)
                         else and_then (ev r ns1) (\<lambda>b ns2. Some (Inr (Bool (truthy b)), ns2)))
           else Some (Inl ProgramNotSupported, ns)) = Some x"
      by (simp add: dn)
    with binary_operation show ?thesis
      by (auto simp add: up Let_def
          split: if_splits option.splits sum.splits prod.splits
          dest: b conj disj dest!: dv)
  qed
qed

lemma eval_ast_more_fuel:
  "eval_ast L n e ls ns = Some x \<Longrightarrow> eval_ast L (n + k) e ls ns = Some x"
  by (induction k) (auto dest: eval_ast_Suc)

subsection \<open>An evaluation never removes a key of the namespace\<close>

lemma and_then_keeps:
  assumes "and_then m f = Some (r, ns')"
    and "\<And>x ns1. m = Some (x, ns1) \<Longrightarrow> P ns1"
    and "\<And>v ns1. P ns1 \<Longrightarrow> f v ns1 = Some (r, ns') \<Longrightarrow> P ns'"
  shows "P ns'"
  using assms
  by (auto simp: and_then_def split: option.splits sum.splits prod.splits)

lemma both_keeps:
  assumes b: "both ev l r ns f = Some (x, ns')"
    and p: "P ns"
    and ev: "\<And>e ns r ns'. P ns \<Longrightarrow> ev e ns = Some (r, ns') \<Longrightarrow> P ns'"
  shows "P ns'"
proof (rule and_then_keeps [OF b [unfolded both_def]])
  fix x ns1 assume "ev l ns = Some (x, ns1)"
  with p show "P ns1" by (rule ev)
next
  fix v ns1
  assume p1: "P ns1"
    and r: "and_then (ev r ns1) (\<lambda>b ns2. Some (f v b, ns2)) = Some (x, ns')"
  show "P ns'"
  proof (rule and_then_keeps [OF r])
    fix y ns2 assume "ev r ns1 = Some (y, ns2)"
    with p1 show "P ns2" by (rule ev)
  next
    fix w ns2 assume "P ns2" "Some (f v w, ns2) = Some (x, ns')"
    then show "P ns'" by simp
  qed
qed

lemma for_exps_keeps:
  assumes "\<And>e ns r ns'. P ns \<Longrightarrow> ev e ns = Some (r, ns') \<Longrightarrow> P ns'"
  shows "P ns \<Longrightarrow> for_exps ev es ns = Some (r, ns') \<Longrightarrow> P ns'"
proof (induction es arbitrary: ns)
  case Nil
  then show ?case by simp
next
  case (Cons e es)
  from Cons.prems(2) show ?case
    by (auto simp: and_then_def split: option.splits sum.splits prod.splits
        intro: assms [OF Cons.prems(1)] Cons.IH)
qed

lemma concat_loop_keeps:
  assumes "\<And>e ns r ns'. P ns \<Longrightarrow> ev e ns = Some (r, ns') \<Longrightarrow> P ns'"
  shows "P ns \<Longrightarrow> concat_loop ev es acc ns = Some (r, ns') \<Longrightarrow> P ns'"
proof (induction es arbitrary: ns acc)
  case Nil
  then show ?case by simp
next
  case (Cons e es)
  from Cons.prems(2) show ?case
    by (auto simp: and_then_def split: option.splits sum.splits prod.splits
        intro: assms [OF Cons.prems(1)] Cons.IH)
qed


lemma merge_back_keys: "has_key k (merge_back ns loc) = has_key k ns"
  by (simp add: has_key_def merge_back_def split: option.splits)

lemma has_key_upd: "has_key k ns \<Longrightarrow> has_key k (ns(x \<mapsto> v))"
  by (simp add: has_key_def)

lemma eval_ast_keeps_keys:
  "eval_ast L n e ls ns = Some (r, ns') \<Longrightarrow> has_key k ns \<Longrightarrow> has_key k ns'"
proof (induction n arbitrary: e ls ns r ns')
  case 0
  then show ?case by simp
next
  case (Suc n)
  let ?P = "has_key k"
  have IH: "\<And>ls e ns r ns'. ?P ns \<Longrightarrow> eval_ast L n e ls ns = Some (r, ns') \<Longrightarrow> ?P ns'"
    using Suc.IH by blast
  note ev = Suc.prems(1) and p = Suc.prems(2)
  show ?case
  proof (cases e)
    case (numeric_literal x)
    with ev p show ?thesis by simp
  next
    case (bool_literal x)
    with ev p show ?thesis by simp
  next
    case (string_literal x)
    with ev p show ?thesis by simp
  next
    case (let_var x)
    with ev p show ?thesis by (auto simp: lookup_def split: option.splits)
  next
    case (mut_var x)
    with ev p show ?thesis by (auto simp: lookup_def split: option.splits)
  next
    case (get x)
    with ev p show ?thesis by (auto simp: lookup_def split: option.splits)
  next
    case (let' x e1 e2)
    with ev have "and_then (eval_ast L n e1 ls ns)
        (\<lambda>temp ns1. eval_ast L n e2 (ls(x \<mapsto> temp)) ns1) = Some (r, ns')" by simp
    then show ?thesis
      by (rule and_then_keeps) (auto intro: IH [OF p] elim: IH)
  next
    case (set' x v)
    with ev have "and_then (eval_ast L n v ls ns)
        (\<lambda>temp ns1. Some (Inr (Fraction 0), ns1(x \<mapsto> temp))) = Some (r, ns')" by simp
    then show ?thesis
      by (rule and_then_keeps) (auto intro: IH [OF p] has_key_upd)
  next
    case (if_statement c a b)
    with ev have "and_then (eval_ast L n c ls ns)
        (\<lambda>c ns1. if truthy c then eval_ast L n a ls ns1 else eval_ast L n b ls ns1)
        = Some (r, ns')" by simp
    then show ?thesis
      by (rule and_then_keeps) (auto intro: IH [OF p] elim: IH split: if_splits)
  next
    case (while_loop c b)
    with ev have "and_then (eval_ast L n c ls ns)
        (\<lambda>v ns1. if truthy v
                  then and_then (eval_ast L n b ls ns1)
                         (\<lambda>v ns2. eval_ast L n (while_loop c b) ls ns2)
                  else Some (Inr (Fraction 0), ns1)) = Some (r, ns')" by simp
    then show ?thesis
    proof (rule and_then_keeps)
      fix x ns1 assume "eval_ast L n c ls ns = Some (x, ns1)"
      with p show "?P ns1" by (rule IH)
    next
      fix v ns1
      assume p1: "?P ns1" and
        r: "(if truthy v
              then and_then (eval_ast L n b ls ns1)
                     (\<lambda>v ns2. eval_ast L n (while_loop c b) ls ns2)
              else Some (Inr (Fraction 0), ns1)) = Some (r, ns')"
      show "?P ns'"
      proof (cases "truthy v")
        case True
        with r have "and_then (eval_ast L n b ls ns1)
                     (\<lambda>v ns2. eval_ast L n (while_loop c b) ls ns2) = Some (r, ns')" by simp
        then show ?thesis
          by (rule and_then_keeps) (auto intro: IH [OF p1] elim: IH)
      next
        case False
        with r p1 show ?thesis by simp
      qed
    qed
  next
    case (block exps)
    show ?thesis
    proof (cases "for_exps (\<lambda>e ns. eval_ast L n e ls ns) exps ns")
      case None
      with ev block show ?thesis by simp
    next
      case (Some a)
      with ev block p show ?thesis
        by (auto simp: merge_back_keys split: prod.splits sum.splits)
    qed
  next
    case (string_operation op operands start stop hop)
    have cl: "\<And>xs acc. concat_loop (\<lambda>e ns. eval_ast L n e ls ns) xs acc ns = Some (r, ns')
        \<Longrightarrow> ?P ns'"
      by (erule concat_loop_keeps [where P = ?P, OF _ p, rotated]) (erule (1) IH)
    have sl: "\<And>x. and_then (eval_ast L n x ls ns)
        (\<lambda>final_string ns1. Some (py_slice final_string start stop hop, ns1)) = Some (r, ns')
        \<Longrightarrow> ?P ns'"
      by (erule and_then_keeps) (auto intro: IH [OF p])
    from ev p string_operation show ?thesis
      by (auto split: if_splits operands.splits dest: cl sl)
  next
    case (binary_operation op l r')
    have b: "\<And>f. both (\<lambda>e ns. eval_ast L n e ls ns) l r' ns f = Some (r, ns') \<Longrightarrow> ?P ns'"
      by (erule both_keeps [where P = ?P, OF _ p]) (erule (1) IH)
    have rb: "\<And>ns1. ?P ns1 \<Longrightarrow> and_then (eval_ast L n r' ls ns1)
            (\<lambda>b ns2. Some (Inr (Bool (truthy b)), ns2)) = Some (r, ns') \<Longrightarrow> ?P ns'"
    proof -
      fix ns1 assume p1: "?P ns1"
        and r: "and_then (eval_ast L n r' ls ns1)
            (\<lambda>b ns2. Some (Inr (Bool (truthy b)), ns2)) = Some (r, ns')"
      from r show "?P ns'" by (rule and_then_keeps) (auto intro: IH [OF p1])
    qed
    have conj: "and_then (eval_ast L n l ls ns)
               (\<lambda>a ns1. if truthy a
                   then and_then (eval_ast L n r' ls ns1) (\<lambda>b ns2. Some (Inr (Bool (truthy b)), ns2))
                   else Some (Inr (Bool False), ns1)) = Some (r, ns') \<Longrightarrow> ?P ns'"
      by (erule and_then_keeps) (auto intro: IH [OF p] rb split: if_splits)
    have disj: "and_then (eval_ast L n l ls ns)
               (\<lambda>a ns1. if truthy a then Some (Inr (Bool True), ns1)
                   else and_then (eval_ast L n r' ls ns1) (\<lambda>b ns2. Some (Inr (Bool (truthy b)), ns2)))
                = Some (r, ns') \<Longrightarrow> ?P ns'"
      by (erule and_then_keeps) (auto intro: IH [OF p] rb split: if_splits)
    from ev p binary_operation show ?thesis
      by (auto simp: Let_def split: if_splits option.splits sum.splits prod.splits dest: b conj disj)
  qed
qed

lemma for_exps_keeps_keys:
  "for_exps (\<lambda>e ns. eval_ast L n e ls ns) exps ns = Some (r, loc) \<Longrightarrow>
     has_key k ns \<Longrightarrow> has_key k loc"
  by (erule for_exps_keeps [where P = "has_key k", rotated 2]) (auto elim: eval_ast_keeps_keys)

subsection \<open>Properties of the evaluator\<close>

text \<open>
  In the theorems below \<open>L\<close> is the library parameter of \<open>eval_ast\<close> and the
  first number is the bound: a statement \<open>eval_ast L n \<dots> = Some \<dots>\<close> says that the
  evaluation ends within the bound \<open>n\<close> with this outcome.
\<close>

text \<open>
  C1, as stated: \<open>&&\<close> and \<open>||\<close> evaluate both operands, so the side effects and
  errors of the right operand occur even when the left operand decides the result. They
  do not: the code applies Python's \<open>and\<close> and \<open>or\<close> to the two calls of
  \<open>eval_ast\<close>, and these evaluate their second operand only when the first does not
  decide. With a falsy left operand of \<open>&&\<close> the assignment on the right does not
  happen; with a truthy left operand of \<open>||\<close> the undefined variable on the right
  raises nothing. (The last two conjuncts show what the right operands do when they are
  evaluated.)
\<close>

theorem logical_operators_counterexample:
  "\<forall>L. eval_ast L (Suc (Suc 0))
          (binary_operation ''&&'' (bool_literal False) (set' ''x'' (numeric_literal 1)))
          Map.empty Map.empty = Some (Inr (Bool False), Map.empty)
      \<and> eval_ast L (Suc (Suc 0)) (binary_operation ''||'' (bool_literal True) (get ''x''))
          Map.empty Map.empty = Some (Inr (Bool True), Map.empty)
      \<and> eval_ast L (Suc (Suc 0)) (set' ''x'' (numeric_literal 1)) Map.empty Map.empty =
          Some (Inr (Fraction 0), [''x'' \<mapsto> Fraction 1])
      \<and> eval_ast L (Suc 0) (get ''x'') Map.empty Map.empty =
          Some (Inl VariableNotDefined, Map.empty)"
  by (simp add: and_then_def lookup_def)

text \<open>
  C1, amended: the left operand is evaluated first. When it returns a falsy value,
  \<open>&&\<close> returns \<open>False\<close> without evaluating the right operand, and when it
  returns a truthy value, \<open>||\<close> returns \<open>True\<close> without evaluating the right
  operand; the namespace is then as the left operand left it. Otherwise the right
  operand is evaluated in the namespace the left operand left, its errors are the
  errors of the operation and the result is the truth value of its value.
\<close>

theorem logical_operators_short_circuit:
  assumes "eval_ast L n left ls ns = Some (Inr a, ns1)"
  shows "eval_ast L (Suc n) (binary_operation ''&&'' left right) ls ns =
           (if truthy a
            then and_then (eval_ast L n right ls ns1) (\<lambda>b ns2. Some (Inr (Bool (truthy b)), ns2))
            else Some (Inr (Bool False), ns1))
       \<and> eval_ast L (Suc n) (binary_operation ''||'' left right) ls ns =
           (if truthy a then Some (Inr (Bool True), ns1)
            else and_then (eval_ast L n right ls ns1) (\<lambda>b ns2. Some (Inr (Bool (truthy b)), ns2)))"
  using assms by (simp add: and_then_def)

theorem logical_operators_short_circuit_witness:
  "\<forall>L. eval_ast L (Suc 0) (bool_literal False) Map.empty Map.empty
          = Some (Inr (Bool False), Map.empty)
      \<and> eval_ast L (Suc (Suc 0))
          (binary_operation ''&&'' (bool_literal False) (set' ''x'' (numeric_literal 1)))
          Map.empty Map.empty = Some (Inr (Bool False), Map.empty)
      \<and> eval_ast L (Suc (Suc 0))
          (binary_operation ''||'' (bool_literal False) (bool_literal True))
          Map.empty Map.empty = Some (Inr (Bool True), Map.empty)"
proof
  fix L
  have h: "eval_ast L (Suc 0) (bool_literal False) Map.empty Map.empty
          = Some (Inr (Bool False), Map.empty)" by simp
  have t: "eval_ast L (Suc 0) (bool_literal True) Map.empty Map.empty
          = Some (Inr (Bool True), Map.empty)" by simp
  from logical_operators_short_circuit [OF h, of "set' ''x'' (numeric_literal 1)"]
    logical_operators_short_circuit [OF h, of "bool_literal True"] h t
  show "eval_ast L (Suc 0) (bool_literal False) Map.empty Map.empty
          = Some (Inr (Bool False), Map.empty)
      \<and> eval_ast L (Suc (Suc 0))
          (binary_operation ''&&'' (bool_literal False) (set' ''x'' (numeric_literal 1)))
          Map.empty Map.empty = Some (Inr (Bool False), Map.empty)
      \<and> eval_ast L (Suc (Suc 0))
          (binary_operation ''||'' (bool_literal False) (bool_literal True))
          Map.empty Map.empty = Some (Inr (Bool True), Map.empty)"
    by (simp add: and_then_def del: eval_ast.simps)
qed

text \<open>
  C2. When a block returns, every key the enclosing namespace had before the block holds
  the value it has in the block's local namespace after the last expression, and every
  other key is absent from the enclosing namespace, so that reading it afterwards raises
  \<open>Exception("Variable not defined")\<close>. The block returns the zero rational.
\<close>

theorem block_merge_back:
  assumes "eval_ast L (Suc n) (block exps) ls N = Some (Inr v, N')"
  shows "\<exists>loc. for_exps (\<lambda>e ns. eval_ast L n e ls ns) exps N = Some (Inr (), loc)
           \<and> (\<forall>k. has_key k N \<longrightarrow> N' k = loc k)
           \<and> (\<forall>k. \<not> has_key k N \<longrightarrow>
                 N' k = None
                 \<and> eval_ast L (Suc m) (get k) ls' N' = Some (Inl VariableNotDefined, N'))
           \<and> v = Fraction 0"
proof -
  from assms obtain loc where
    f: "for_exps (\<lambda>e ns. eval_ast L n e ls ns) exps N = Some (Inr (), loc)"
    and N': "N' = merge_back N loc" and v: "v = Fraction 0"
    by (auto split: option.splits sum.splits prod.splits)
  have "N' k = loc k" if "has_key k N" for k
  proof -
    from for_exps_keeps_keys [OF f that] have "has_key k loc" .
    with that show ?thesis
      by (auto simp: N' merge_back_def has_key_def)
  qed
  moreover have "N' k = None" if "\<not> has_key k N" for k
    using that by (simp add: N' merge_back_def has_key_def)
  ultimately show ?thesis
    using f v by (auto simp: lookup_def)
qed


theorem block_merge_back_witness:
  "\<forall>L. \<exists>N'. eval_ast L (Suc (Suc (Suc 0)))
            (block [set' ''x'' (numeric_literal 2), set' ''y'' (numeric_literal 3)])
            Map.empty [''x'' \<mapsto> Fraction 1] = Some (Inr (Fraction 0), N')
          \<and> N' ''x'' = Some (Fraction 2)
          \<and> N' ''y'' = None
          \<and> eval_ast L (Suc 0) (get ''y'') Map.empty N' = Some (Inl VariableNotDefined, N')"
proof
  fix L
  let ?b = "block [set' ''x'' (numeric_literal 2), set' ''y'' (numeric_literal 3)]"
  let ?N = "[''x'' \<mapsto> Fraction 1]"
  have "\<exists>N'. eval_ast L (Suc (Suc (Suc 0))) ?b Map.empty ?N = Some (Inr (Fraction 0), N')"
    by (simp add: and_then_def)
  then obtain N' where h: "eval_ast L (Suc (Suc (Suc 0))) ?b Map.empty ?N
      = Some (Inr (Fraction 0), N')" ..
  from block_merge_back [OF h, of 0 Map.empty] obtain loc where
    f: "for_exps (\<lambda>e ns. eval_ast L (Suc (Suc 0)) e Map.empty ns)
          [set' ''x'' (numeric_literal 2), set' ''y'' (numeric_literal 3)] ?N
        = Some (Inr (), loc)"
    and old: "\<forall>k. has_key k ?N \<longrightarrow> N' k = loc k"
    and new: "\<forall>k. \<not> has_key k ?N \<longrightarrow> N' k = None
          \<and> eval_ast L (Suc 0) (get k) Map.empty N' = Some (Inl VariableNotDefined, N')"
    by blast
  from f have loc: "loc = [''x'' \<mapsto> Fraction 2, ''y'' \<mapsto> Fraction 3]"
    by (simp add: and_then_def)
  have x: "has_key ''x'' ?N" and y: "\<not> has_key ''y'' ?N"
    by (simp_all add: has_key_def)
  from old x loc have "N' ''x'' = Some (Fraction 2)" by simp
  moreover from new y have "N' ''y'' = None
      \<and> eval_ast L (Suc 0) (get ''y'') Map.empty N' = Some (Inl VariableNotDefined, N')"
    by blast
  ultimately show "\<exists>N'. eval_ast L (Suc (Suc (Suc 0))) ?b Map.empty ?N
            = Some (Inr (Fraction 0), N')
          \<and> N' ''x'' = Some (Fraction 2)
          \<and> N' ''y'' = None
          \<and> eval_ast L (Suc 0) (get ''y'') Map.empty N' = Some (Inl VariableNotDefined, N')"
    using h by blast
qed

text \<open>
  C3. Dividing the literal \<open>a\<close> by the literal \<open>b\<close> returns the exact rational
  \<open>a / b\<close> when \<open>b\<close> is not zero and raises \<open>Exception("Division by zero")\<close>
  when it is, in every scope and namespace, which it leaves unchanged, and within every
  bound of at least two.
\<close>

theorem division_of_literals:
  "eval_ast L (Suc (Suc n)) (binary_operation ''/'' (numeric_literal a) (numeric_literal b)) ls ns =
     (if b = 0 then Some (Inl DivisionByZero, ns) else Some (Inr (Fraction (a / b)), ns))"
  by (simp add: both_def and_then_def)

text \<open>
  C4. A division evaluates its divisor in the empty scope and the empty namespace first,
  and that evaluation alone decides the zero test: when it raises, the division raises
  the same exception; when its value equals zero, the division raises
  \<open>Exception("Division by zero")\<close>; in both cases nothing else is evaluated and the
  namespace is unchanged. Only when its value is not zero is the left operand evaluated
  and then the divisor a second time, in the actual scope and the namespace the left
  operand left, and the quotient is taken from this second value.
\<close>

theorem division_zero_test_in_empty_environment:
  "(eval_ast L n right Map.empty Map.empty = Some (Inl e, x) \<longrightarrow>
      eval_ast L (Suc n) (binary_operation ''/'' left right) ls ns = Some (Inl e, ns))
   \<and> (eval_ast L n right Map.empty Map.empty = Some (Inr d, x) \<and> py_eq d (Fraction 0) \<longrightarrow>
      eval_ast L (Suc n) (binary_operation ''/'' left right) ls ns = Some (Inl DivisionByZero, ns))
   \<and> (eval_ast L n right Map.empty Map.empty = Some (Inr d, x) \<and> \<not> py_eq d (Fraction 0)
        \<and> eval_ast L n left ls ns = Some (Inr a, ns1)
        \<and> eval_ast L n right ls ns1 = Some (Inr b, ns2) \<longrightarrow>
      eval_ast L (Suc n) (binary_operation ''/'' left right) ls ns = Some (py_truediv a b, ns2))"
  by (simp add: both_def and_then_def)

text \<open>
  Three divisions at which the three cases apply. The divisor \<open>get x\<close> raises in
  the empty namespace, so the division raises \<open>Variable not defined\<close> whether
  \<open>x\<close> is 0 or 2 in the actual namespace. The divisor \<open>False\<close> equals zero, and
  the left operand, an undefined variable, is not evaluated. The divisor
  \<open>set x 4 + get x\<close> is 4 in the empty namespace, and its second evaluation writes
  \<open>x\<close> to the actual namespace.
\<close>

theorem division_zero_test_in_empty_environment_witness:
  "\<forall>L. eval_ast L (Suc (Suc 0)) (binary_operation ''/'' (numeric_literal 1) (get ''x''))
          Map.empty [''x'' \<mapsto> Fraction 0]
        = Some (Inl VariableNotDefined, [''x'' \<mapsto> Fraction 0])
      \<and> eval_ast L (Suc (Suc 0)) (binary_operation ''/'' (numeric_literal 1) (get ''x''))
          Map.empty [''x'' \<mapsto> Fraction 2]
        = Some (Inl VariableNotDefined, [''x'' \<mapsto> Fraction 2])
      \<and> eval_ast L (Suc (Suc 0)) (binary_operation ''/'' (get ''x'') (bool_literal False))
          Map.empty Map.empty
        = Some (Inl DivisionByZero, Map.empty)
      \<and> eval_ast L (Suc (Suc (Suc (Suc 0))))
          (binary_operation ''/'' (numeric_literal 1)
             (binary_operation ''+'' (set' ''x'' (numeric_literal 4)) (get ''x'')))
          Map.empty Map.empty
        = Some (Inr (Fraction (1 / 4)), [''x'' \<mapsto> Fraction 4])"
proof
  fix L
  let ?d = "binary_operation ''+'' (set' ''x'' (numeric_literal 4)) (get ''x'')"
  have g: "eval_ast L (Suc 0) (get ''x'') Map.empty Map.empty
            = Some (Inl VariableNotDefined, Map.empty)"
    by (simp add: lookup_def)
  have z: "eval_ast L (Suc 0) (bool_literal False) Map.empty Map.empty
            = Some (Inr (Bool False), Map.empty) \<and> py_eq (Bool False) (Fraction 0)"
    by simp
  have d: "eval_ast L (Suc (Suc (Suc 0))) ?d Map.empty Map.empty
            = Some (Inr (Fraction 4), [''x'' \<mapsto> Fraction 4])"
    by (simp add: both_def and_then_def lookup_def)
  have three: "eval_ast L (Suc (Suc (Suc 0))) ?d Map.empty Map.empty
         = Some (Inr (Fraction 4), [''x'' \<mapsto> Fraction 4])
       \<and> \<not> py_eq (Fraction 4) (Fraction 0)
       \<and> eval_ast L (Suc (Suc (Suc 0))) (numeric_literal 1) Map.empty Map.empty
         = Some (Inr (Fraction 1), Map.empty)
       \<and> eval_ast L (Suc (Suc (Suc 0))) ?d Map.empty Map.empty
         = Some (Inr (Fraction 4), [''x'' \<mapsto> Fraction 4])"
    using d by simp
  note T = division_zero_test_in_empty_environment
  from T [of L "Suc 0" "get ''x''" VariableNotDefined Map.empty "numeric_literal 1"
             Map.empty "[''x'' \<mapsto> Fraction 0]"] g
  have c1: "eval_ast L (Suc (Suc 0)) (binary_operation ''/'' (numeric_literal 1) (get ''x''))
          Map.empty [''x'' \<mapsto> Fraction 0]
        = Some (Inl VariableNotDefined, [''x'' \<mapsto> Fraction 0])" by blast
  from T [of L "Suc 0" "get ''x''" VariableNotDefined Map.empty "numeric_literal 1"
             Map.empty "[''x'' \<mapsto> Fraction 2]"] g
  have c2: "eval_ast L (Suc (Suc 0)) (binary_operation ''/'' (numeric_literal 1) (get ''x''))
          Map.empty [''x'' \<mapsto> Fraction 2]
        = Some (Inl VariableNotDefined, [''x'' \<mapsto> Fraction 2])" by blast
  from T [of L "Suc 0" "bool_literal False" _ Map.empty "get ''x''" Map.empty Map.empty
             "Bool False"] z
  have c3: "eval_ast L (Suc (Suc 0)) (binary_operation ''/'' (get ''x'') (bool_literal False))
          Map.empty Map.empty = Some (Inl DivisionByZero, Map.empty)" by blast
  from T [of L "Suc (Suc (Suc 0))" ?d _ "[''x'' \<mapsto> Fraction 4]" "numeric_literal 1"
             Map.empty Map.empty "Fraction 4" "Fraction 1" Map.empty "Fraction 4"
             "[''x'' \<mapsto> Fraction 4]"] three
  have "eval_ast L (Suc (Suc (Suc (Suc 0)))) (binary_operation ''/'' (numeric_literal 1) ?d)
          Map.empty Map.empty
        = Some (py_truediv (Fraction 1) (Fraction 4), [''x'' \<mapsto> Fraction 4])" by blast
  then have c4: "eval_ast L (Suc (Suc (Suc (Suc 0)))) (binary_operation ''/'' (numeric_literal 1) ?d)
          Map.empty Map.empty
        = Some (Inr (Fraction (1 / 4)), [''x'' \<mapsto> Fraction 4])" by simp
  from c1 c2 c3 c4
  show "eval_ast L (Suc (Suc 0)) (binary_operation ''/'' (numeric_literal 1) (get ''x''))
          Map.empty [''x'' \<mapsto> Fraction 0]
        = Some (Inl VariableNotDefined, [''x'' \<mapsto> Fraction 0])
      \<and> eval_ast L (Suc (Suc 0)) (binary_operation ''/'' (numeric_literal 1) (get ''x''))
          Map.empty [''x'' \<mapsto> Fraction 2]
        = Some (Inl VariableNotDefined, [''x'' \<mapsto> Fraction 2])
      \<and> eval_ast L (Suc (Suc 0)) (binary_operation ''/'' (get ''x'') (bool_literal False))
          Map.empty Map.empty
        = Some (Inl DivisionByZero, Map.empty)
      \<and> eval_ast L (Suc (Suc (Suc (Suc 0))))
          (binary_operation ''/'' (numeric_literal 1) ?d)
          Map.empty Map.empty
        = Some (Inr (Fraction (1 / 4)), [''x'' \<mapsto> Fraction 4])"
    by blast
qed

text \<open>
  C10. When a block raises, the namespace it was evaluated against is exactly as it was
  before the block: the expressions of the block write to the local copy only.
\<close>

theorem block_error_leaves_namespace:
  "eval_ast L n (block exps) ls N = Some (Inl e, N') \<Longrightarrow> N' = N"
  by (cases n) (auto split: option.splits sum.splits prod.splits)

theorem block_error_leaves_namespace_witness:
  "\<forall>L. eval_ast L (Suc (Suc (Suc 0))) (block [set' ''x'' (numeric_literal 1), get ''y''])
          Map.empty [''x'' \<mapsto> Fraction 5]
        = Some (Inl VariableNotDefined, [''x'' \<mapsto> Fraction 5])"
proof
  fix L
  have "\<exists>N'. eval_ast L (Suc (Suc (Suc 0))) (block [set' ''x'' (numeric_literal 1), get ''y''])
          Map.empty [''x'' \<mapsto> Fraction 5] = Some (Inl VariableNotDefined, N')"
    by (simp add: and_then_def lookup_def)
  then obtain N' where h: "eval_ast L (Suc (Suc (Suc 0)))
      (block [set' ''x'' (numeric_literal 1), get ''y''])
      Map.empty [''x'' \<mapsto> Fraction 5] = Some (Inl VariableNotDefined, N')" ..
  from block_error_leaves_namespace [OF h] h
  show "eval_ast L (Suc (Suc (Suc 0))) (block [set' ''x'' (numeric_literal 1), get ''y''])
          Map.empty [''x'' \<mapsto> Fraction 5]
        = Some (Inl VariableNotDefined, [''x'' \<mapsto> Fraction 5])" by simp
qed

subsection \<open>The factorial program of the tests\<close>

text \<open>
  The loop of \<open>test6\<close>:
  \<open>while i < 10 { set i (i + 1); set j (j * i) }\<close>.
\<close>

definition factorial_body :: ast where
  "factorial_body =
     block [set' ''i'' (binary_operation ''+'' (get ''i'') (numeric_literal 1)),
            set' ''j'' (binary_operation ''*'' (get ''j'') (get ''i''))]"

definition factorial_loop :: ast where
  "factorial_loop =
     while_loop (binary_operation ''<'' (get ''i'') (numeric_literal 10)) factorial_body"

text \<open>The namespace in which \<open>i\<close> is \<open>a\<close> and \<open>j\<close> is \<open>b\<close>.\<close>

definition counters :: "rat \<Rightarrow> rat \<Rightarrow> namespace" where
  "counters a b = [''i'' \<mapsto> Fraction a, ''j'' \<mapsto> Fraction b]"

lemma merge_back_counters: "merge_back (counters a b) (counters c d) = counters c d"
  by (rule ext) (simp add: merge_back_def counters_def)

lemma counters_i: "counters a b ''i'' = Some (Fraction a)"
  and counters_j: "counters a b ''j'' = Some (Fraction b)"
  by (simp_all add: counters_def)

lemma condition_step:
  "eval_ast L (Suc (Suc n)) (binary_operation ''<'' (get ''i'') (numeric_literal 10)) ls
     (counters a b) = Some (Inr (Bool (a < 10)), counters a b)"
  by (simp add: both_def and_then_def lookup_def counters_i as_Bool_def)

lemma set_i_step:
  "eval_ast L (Suc (Suc (Suc n)))
     (set' ''i'' (binary_operation ''+'' (get ''i'') (numeric_literal 1))) ls (counters a b)
     = Some (Inr (Fraction 0), counters (a + 1) b)"
proof -
  have "(counters a b)(''i'' \<mapsto> Fraction (a + 1)) = counters (a + 1) b"
    by (rule ext) (simp add: counters_def)
  then show ?thesis
    by (simp add: both_def and_then_def lookup_def counters_i)
qed

lemma set_j_step:
  "eval_ast L (Suc (Suc (Suc n)))
     (set' ''j'' (binary_operation ''*'' (get ''j'') (get ''i''))) ls (counters a b)
     = Some (Inr (Fraction 0), counters a (b * a))"
proof -
  have "(counters a b)(''j'' \<mapsto> Fraction (b * a)) = counters a (b * a)"
    by (rule ext) (simp add: counters_def)
  then show ?thesis
    by (simp add: both_def and_then_def lookup_def counters_i counters_j)
qed

lemma body_step:
  "eval_ast L (Suc (Suc (Suc (Suc n)))) factorial_body ls (counters a b)
     = Some (Inr (Fraction 0), counters (a + 1) (b * (a + 1)))"
  unfolding factorial_body_def
  by (simp only: eval_ast.simps(2) [of _ "Suc (Suc (Suc n))" "block xs" for xs]
      ast.case for_exps.simps set_i_step set_j_step and_then_def
      option.case prod.case sum.case merge_back_counters)

lemma loop_step:
  "a < 10 \<Longrightarrow>
   eval_ast L (Suc (Suc (Suc (Suc (Suc n))))) factorial_loop ls (counters a b)
   = eval_ast L (Suc (Suc (Suc (Suc n)))) factorial_loop ls (counters (a + 1) (b * (a + 1)))"
  unfolding factorial_loop_def
  by (simp only: eval_ast.simps(2) [of _ "Suc (Suc (Suc (Suc n)))" "while_loop c d" for c d]
      ast.case condition_step body_step and_then_def option.case prod.case sum.case
      truthy.simps if_True)

lemma loop_exit:
  "\<not> a < 10 \<Longrightarrow>
   eval_ast L (Suc (Suc (Suc n))) factorial_loop ls (counters a b)
   = Some (Inr (Fraction 0), counters a b)"
  unfolding factorial_loop_def
  by (simp only: eval_ast.simps(2) [of _ "Suc (Suc n)" "while_loop c d" for c d]
      ast.case condition_step and_then_def option.case prod.case sum.case truthy.simps if_False)

lemma thirteen:
  "13 + n = Suc (Suc (Suc (Suc (Suc (Suc (Suc (Suc (Suc (Suc (Suc (Suc (Suc n))))))))))))"
  by simp

lemma loop_run:
  "eval_ast L (13 + n) factorial_loop ls (counters 1 1)
   = Some (Inr (Fraction 0), counters 10 3628800)"
  unfolding thirteen
  by (simp add: loop_step loop_exit del: eval_ast.simps)

text \<open>
  C8. From the empty namespace, \<open>set i 1\<close> and \<open>set j 1\<close> give the namespace in
  which both are 1; the loop, evaluated against it, returns the zero rational and leaves
  \<open>i\<close> at 10 and \<open>j\<close> at 3628800; \<open>get j\<close> then returns 3628800. The loop
  ends within every bound of at least 13.
\<close>

theorem factorial_round_trip:
  "eval_ast L (Suc (Suc n1)) (set' ''i'' (numeric_literal 1)) Map.empty Map.empty
     = Some (Inr (Fraction 0), [''i'' \<mapsto> Fraction 1])
   \<and> eval_ast L (Suc (Suc n2)) (set' ''j'' (numeric_literal 1)) Map.empty [''i'' \<mapsto> Fraction 1]
     = Some (Inr (Fraction 0), [''i'' \<mapsto> Fraction 1, ''j'' \<mapsto> Fraction 1])
   \<and> eval_ast L (13 + n3) factorial_loop Map.empty [''i'' \<mapsto> Fraction 1, ''j'' \<mapsto> Fraction 1]
     = Some (Inr (Fraction 0), [''i'' \<mapsto> Fraction 10, ''j'' \<mapsto> Fraction 3628800])
   \<and> eval_ast L (Suc n4) (get ''j'') Map.empty [''i'' \<mapsto> Fraction 10, ''j'' \<mapsto> Fraction 3628800]
     = Some (Inr (Fraction 3628800), [''i'' \<mapsto> Fraction 10, ''j'' \<mapsto> Fraction 3628800])"
proof (intro conjI)
  show "eval_ast L (Suc (Suc n1)) (set' ''i'' (numeric_literal 1)) Map.empty Map.empty
     = Some (Inr (Fraction 0), [''i'' \<mapsto> Fraction 1])"
    by (simp add: and_then_def)
  show "eval_ast L (Suc (Suc n2)) (set' ''j'' (numeric_literal 1)) Map.empty
     [''i'' \<mapsto> Fraction 1]
     = Some (Inr (Fraction 0), [''i'' \<mapsto> Fraction 1, ''j'' \<mapsto> Fraction 1])"
    by (simp add: and_then_def)
  show "eval_ast L (13 + n3) factorial_loop Map.empty [''i'' \<mapsto> Fraction 1, ''j'' \<mapsto> Fraction 1]
     = Some (Inr (Fraction 0), [''i'' \<mapsto> Fraction 10, ''j'' \<mapsto> Fraction 3628800])"
    using loop_run [of L n3 Map.empty] by (simp only: counters_def)
  show "eval_ast L (Suc n4) (get ''j'') Map.empty
     [''i'' \<mapsto> Fraction 10, ''j'' \<mapsto> Fraction 3628800]
     = Some (Inr (Fraction 3628800), [''i'' \<mapsto> Fraction 10, ''j'' \<mapsto> Fraction 3628800])"
    by (simp add: lookup_def)
qed

end
